theory Spec2Isabelle
  imports Complex_Main
begin

section \<open>Micromagnetic standard problem 3: the notebook's functions\<close>

text \<open>
  The notebook \<^verbatim>\<open>standard_problem3.ipynb\<close> defines two initial magnetisation
  configurations, a function that sets a cubic sample up and hands it to the OOMMF
  minimisation driver, and an energy difference whose zero is searched for by bisection.
  In the initial configurations and in the energies Python floats are modelled as real
  numbers, and rounding is not modelled there; the literal \<^verbatim>\<open>1e-9\<close> is
  \<open>1 / 10 ^ 9\<close>. The material constants of \<open>minimise_system_energy\<close> are modelled
  in double precision: every operation that computes them rounds its result.
\<close>

subsection \<open>Positions and magnetisation vectors\<close>

type_synonym vec3 = "real \<times> real \<times> real"

text \<open>The squared Euclidean length, \<^verbatim>\<open>mx**2 + my**2 + mz**2\<close>.\<close>

definition norm_squared :: "vec3 \<Rightarrow> real" where
  "norm_squared v = (case v of (mx, my, mz) \<Rightarrow> mx ^ 2 + my ^ 2 + mz ^ 2)"

subsection \<open>The initial configurations\<close>

text \<open>
  \<^verbatim>\<open>
  def m_init_flower(pos):
      x, y, z = pos[0]/1e-9, pos[1]/1e-9, pos[2]/1e-9
      mx = 0
      my = -2*z + 1
      mz = 2*y - 1
      norm_squared = mx**2 + my**2 + mz**2
      if norm_squared <= 0.05:
          return (1, 0, 0)
      else:
          return (mx, my, mz)
  \<close>
\<close>

definition m_init_flower :: "vec3 \<Rightarrow> vec3" where
  "m_init_flower pos =
     (case pos of (pos0, pos1, pos2) \<Rightarrow>
        let x = pos0 / (1 / 10 ^ 9); y = pos1 / (1 / 10 ^ 9); z = pos2 / (1 / 10 ^ 9);
            mx = 0;
            my = - 2 * z + 1;
            mz = 2 * y - 1;
            norm_squared = mx ^ 2 + my ^ 2 + mz ^ 2
        in if norm_squared \<le> 0.05 then (1, 0, 0) else (mx, my, mz))"

text \<open>
  \<^verbatim>\<open>
  def m_init_vortex(pos):
      x, y, z = pos[0]/1e-9, pos[1]/1e-9, pos[2]/1e-9
      mx = 0
      my = np.sin(np.pi/2 * (-x-0.5))
      mz = np.cos(np.pi/2 * (-x-0.5))
      return (mx, my, mz)
  \<close>
\<close>

definition m_init_vortex :: "vec3 \<Rightarrow> vec3" where
  "m_init_vortex pos =
     (case pos of (pos0, pos1, pos2) \<Rightarrow>
        let x = pos0 / (1 / 10 ^ 9); y = pos1 / (1 / 10 ^ 9); z = pos2 / (1 / 10 ^ 9);
            mx = 0;
            my = sin (pi / 2 * (- x - 0.5));
            mz = cos (pi / 2 * (- x - 0.5))
        in (mx, my, mz))"

text \<open>
  The flower vector before the near-zero test, \<open>(0, -2z+1, 2y-1)\<close> with \<open>y\<close> and \<open>z\<close> the
  coordinates in nanometres; used to state what \<open>m_init_flower\<close> returns.
\<close>

definition flower_vector :: "vec3 \<Rightarrow> vec3" where
  "flower_vector pos =
     (case pos of (pos0, pos1, pos2) \<Rightarrow>
        (0, - 2 * (pos2 / (1 / 10 ^ 9)) + 1, 2 * (pos1 / (1 / 10 ^ 9)) - 1))"


subsection \<open>Double-precision rounding\<close>

text \<open>
  A double has a significand of 53 bits. \<open>fl x\<close> is the double nearest to the real
  number \<open>x\<close>, ties going to the even significand, which is what every arithmetic
  operation, \<^verbatim>\<open>np.sqrt\<close> and the reading of a decimal literal return. The exponent
  range is not bounded here: overflow to infinity and the loss of precision of
  subnormal numbers are not modelled, so \<open>fl x\<close> is the double the code gets where
  \<open>\<bar>x\<bar>\<close> is neither below \<open>2 ^ -1022\<close> nor rounds up to \<open>2 ^ 1024\<close>.
\<close>

definition round_to_even :: "real \<Rightarrow> int" where
  "round_to_even x =
     (let f = \<lfloor>x\<rfloor>; r = x - of_int f
      in if r < 1 / 2 then f else if 1 / 2 < r then f + 1 else if even f then f else f + 1)"

text \<open>The exponent of the last place: \<open>2 ^ 52 \<le> \<bar>x\<bar> / 2 ^ e < 2 ^ 53\<close> at \<open>e = exponent x\<close>.\<close>

definition exponent :: "real \<Rightarrow> int" where
  "exponent x = \<lfloor>log 2 \<bar>x\<bar>\<rfloor> - 52"

definition fl :: "real \<Rightarrow> real" where
  "fl x =
     (if x = 0 then 0
      else of_int (round_to_even (x / 2 powr of_int (exponent x))) * 2 powr of_int (exponent x))"

text \<open>
  \<open>within_roundings k x y\<close>: \<open>x\<close> is \<open>y\<close> up to \<open>k\<close> roundings, each of relative error at
  most \<open>2 ^ -53\<close>. It is used to state how far a computed double is from the exact value.
\<close>

definition within_roundings :: "nat \<Rightarrow> real \<Rightarrow> real \<Rightarrow> bool" where
  "within_roundings k x y \<longleftrightarrow>
     (1 - 1 / 2 ^ 53) ^ k * y \<le> x \<and> x \<le> (1 + 1 / 2 ^ 53) ^ k * y"

subsection \<open>Setting the sample up and relaxing it\<close>

text \<open>
  \<open>minimise_system_energy\<close> computes the sample's constants from the edge length \<open>L\<close>
  (in exchange lengths), builds the mesh, the Hamiltonian and the initial field, and lets
  the minimisation driver relax the system. Its local variables are the definitions below,
  named as in the source (\<open>lex\<close> is \<open>lex_exchange\<close>), each operation rounded by \<open>fl\<close>;
  \<^verbatim>\<open>1e6\<close> is a double as it stands, and a square \<^verbatim>\<open>x**2\<close> is the rounded product
  \<open>fl (x ^ 2)\<close>. The constant \<^verbatim>\<open>oc.mu0\<close> belongs to the OOMMF calculator package and is
  a parameter \<open>mu0\<close> here.
  \<^verbatim>\<open>
  N = 16  # discretisation in one dimension
  cubesize = 100e-9  # cube edge length (m)
  cellsize = cubesize/N  # discretisation in all three dimensions.
  lex = cubesize/L  # exchange length.

  Km = 1e6  # magnetostatic energy density (J/m**3)
  Ms = np.sqrt(2*Km/oc.mu0)  # magnetisation saturation (A/m)
  A = 0.5 * oc.mu0 * Ms**2 * lex**2  # exchange energy constant
  K = 0.1*Km  # Uniaxial anisotropy constant
  u = (0, 0, 1)  # Uniaxial anisotropy easy-axis
  \<close>
\<close>

definition N :: nat where
  "N = 16"

definition cubesize :: real where
  "cubesize = fl (100 / 10 ^ 9)"

definition cellsize :: real where
  "cellsize = fl (cubesize / real N)"

definition lex_exchange :: "real \<Rightarrow> real" where
  "lex_exchange L = fl (cubesize / L)"

definition Km :: real where
  "Km = 10 ^ 6"

definition Ms :: "real \<Rightarrow> real" where
  "Ms mu0 = fl (sqrt (fl (fl (2 * Km) / mu0)))"

definition A :: "real \<Rightarrow> real \<Rightarrow> real" where
  "A mu0 L = fl (fl (fl (0.5 * mu0) * fl (Ms mu0 ^ 2)) * fl (lex_exchange L ^ 2))"

definition K :: real where
  "K = fl (fl 0.1 * Km)"

definition u :: vec3 where
  "u = (0, 0, 1)"

text \<open>
  The double that \<^verbatim>\<open>4 * np.pi * 1e-7\<close> evaluates to, 1.2566370614359173e-06, the
  value of the vacuum permeability in SI units; used to evaluate the constants on a
  concrete input.
\<close>

definition mu0_double :: real where
  "mu0_double = 5934300740056779 / 2 ^ 72"

text \<open>
  The objects handed to the driver: a mesh (\<^verbatim>\<open>oc.Mesh(p1, p2, cell)\<close>), a field
  (\<^verbatim>\<open>df.Field(mesh, value, norm)\<close>), the energy terms of the Hamiltonian and the
  system that holds them.
\<close>

record mesh =
  p1 :: vec3
  p2 :: vec3
  cell :: vec3

record df_field =
  field_mesh :: mesh
  field_value :: "vec3 \<Rightarrow> vec3"
  field_norm :: real

datatype energy_term =
  Exchange real
  | UniaxialAnisotropy real vec3
  | Demag
  | Zeeman vec3

record system =
  system_name :: string
  system_hamiltonian :: "energy_term list"
  system_m :: df_field

datatype py_error = ZeroDivisionError

text \<open>
  The driver (\<^verbatim>\<open>oc.MinDriver().drive\<close>, which runs OOMMF) and the energy read-out
  (\<^verbatim>\<open>system.total_energy()\<close>) are not part of the notebooks: they are the parameters
  \<open>drive\<close> and \<open>total_energy\<close>. The division \<^verbatim>\<open>cubesize/L\<close> of Python numbers raises for
  \<open>L = 0\<close>.
  The progress line the function prints is left out.
  \<^verbatim>\<open>
  mesh = oc.Mesh(p1=(0, 0, 0), p2=(cubesize, cubesize, cubesize),
                 cell=(cellsize, cellsize, cellsize))
  system = oc.System(name="stdprob3")
  system.hamiltonian = oc.Exchange(A) + oc.UniaxialAnisotropy(K, u) + oc.Demag()
  system.m = df.Field(mesh, value=m_init, norm=Ms)
  md = oc.MinDriver()
  md.drive(system)
  return system
  \<close>
\<close>

definition minimise_system_energy ::
  "real \<Rightarrow> (system \<Rightarrow> system) \<Rightarrow> real \<Rightarrow> (vec3 \<Rightarrow> vec3) \<Rightarrow> py_error + system" where
  "minimise_system_energy mu0 drive L m_init =
     (if L = 0 then Inl ZeroDivisionError
      else
        let mesh = \<lparr>p1 = (0, 0, 0), p2 = (cubesize, cubesize, cubesize),
                    cell = (cellsize, cellsize, cellsize)\<rparr>;
            system = \<lparr>system_name = ''stdprob3'',
                      system_hamiltonian =
                        [Exchange (A mu0 L), UniaxialAnisotropy K u, Demag],
                      system_m = \<lparr>field_mesh = mesh, field_value = m_init,
                                  field_norm = Ms mu0\<rparr>\<rparr>
        in Inr (drive system))"

text \<open>
  \<^verbatim>\<open>
  def energy_difference(L):
      vortex = minimise_system_energy(L, m_init_vortex)
      flower = minimise_system_energy(L, m_init_flower)
      return vortex.total_energy() - flower.total_energy()
  \<close>
\<close>

definition energy_difference ::
  "real \<Rightarrow> (system \<Rightarrow> system) \<Rightarrow> (system \<Rightarrow> real) \<Rightarrow> real \<Rightarrow> py_error + real" where
  "energy_difference mu0 drive total_energy L =
     (case minimise_system_energy mu0 drive L m_init_vortex of
        Inl e \<Rightarrow> Inl e
      | Inr vortex \<Rightarrow>
          (case minimise_system_energy mu0 drive L m_init_flower of
             Inl e \<Rightarrow> Inl e
           | Inr flower \<Rightarrow> Inr (total_energy vortex - total_energy flower)))"

text \<open>
  The energy difference as the specification words it, flower minus vortex; for
  comparison with \<open>energy_difference\<close>.
\<close>

definition energy_difference_flower_minus_vortex ::
  "real \<Rightarrow> (system \<Rightarrow> system) \<Rightarrow> (system \<Rightarrow> real) \<Rightarrow> real \<Rightarrow> py_error + real" where
  "energy_difference_flower_minus_vortex mu0 drive total_energy L =
     (case minimise_system_energy mu0 drive L m_init_flower of
        Inl e \<Rightarrow> Inl e
      | Inr flower \<Rightarrow>
          (case minimise_system_energy mu0 drive L m_init_vortex of
             Inl e \<Rightarrow> Inl e
           | Inr vortex \<Rightarrow> Inr (total_energy flower - total_energy vortex)))"

text \<open>
  A stand-in for the energy read-out, used to evaluate \<open>energy_difference\<close> on a concrete
  input: the z component of the field's value at the point \<open>(-0.5 nm, 0, 0)\<close>.
\<close>

definition probe_energy :: "system \<Rightarrow> real" where
  "probe_energy s = snd (snd (field_value (system_m s) (- 1 / (2 * 10 ^ 9), 0, 0)))"

subsection \<open>The critical-length search\<close>

text \<open>
  The notebook searches for the zero of the energy difference with
  \<^verbatim>\<open>crossing = bisect(energy_difference, 8, 9, xtol=0.1)\<close>. The function
  \<^verbatim>\<open>bisect\<close> is \<^verbatim>\<open>scipy.optimize.bisect\<close>; the notebook only calls it, and its
  code is not among the sources. The definitions of this subsection follow the
  specification of the critical-length search instead: the search needs a sign change of
  the energy difference \<open>d\<close> between \<open>lo\<close> and \<open>hi\<close> and fails with \<open>NoBracket\<close>,
  surfacing both endpoint energy differences, when both endpoints give the same-sign
  energy difference; otherwise it repeatedly evaluates \<open>d\<close> at the midpoint and narrows
  the bracket to the half retaining a sign change, until the bracket width is below the
  tolerance, and returns the midpoint as the crossing estimate.
\<close>

type_synonym bracket = "real \<times> real"

text \<open>
  Modelled from the spec: the search's one failure, \<open>NoBracket\<close>, with the energy
  differences at \<open>lo\<close> and at \<open>hi\<close>.
\<close>

datatype search_error = NoBracket real real

text \<open>Modelled from the spec: the bracket width \<open>hi - lo\<close>.\<close>

definition width :: "bracket \<Rightarrow> real" where
  "width b = snd b - fst b"

text \<open>Modelled from the spec: the midpoint of a bracket.\<close>

definition midpoint :: "bracket \<Rightarrow> real" where
  "midpoint b = (fst b + snd b) / 2"

text \<open>
  Modelled from the spec: a bracket has a sign change when the energy differences at its
  two ends do not have the same sign. Two values have the same sign when their product
  is positive, so a bracket with a zero of \<open>d\<close> at an end counts as having a sign change.
\<close>

definition sign_change :: "(real \<Rightarrow> real) \<Rightarrow> bracket \<Rightarrow> bool" where
  "sign_change d b \<longleftrightarrow> d (fst b) * d (snd b) \<le> 0"

text \<open>
  Modelled from the spec: one bisection step, which evaluates \<open>d\<close> at the midpoint and
  keeps the half retaining a sign change. Where both halves retain one (the midpoint is
  a zero of \<open>d\<close>) the lower half is kept.
\<close>

definition narrow :: "(real \<Rightarrow> real) \<Rightarrow> bracket \<Rightarrow> bracket" where
  "narrow d b =
     (let mid = midpoint b
      in if sign_change d (fst b, mid) then (fst b, mid) else (mid, snd b))"

text \<open>
  Modelled from the spec: the bisection loop, which narrows until the bracket width is
  below the tolerance and then returns the midpoint. The specification gives the loop no
  iteration bound: it is a partial function, \<open>None\<close> standing for a search that does not
  return.
\<close>

partial_function (option) bisect_loop :: "(real \<Rightarrow> real) \<Rightarrow> real \<Rightarrow> bracket \<Rightarrow> real option" where
  "bisect_loop d tol b =
     (if width b < tol then Some (midpoint b) else bisect_loop d tol (narrow d b))"

text \<open>
  Modelled from the spec: the critical-length search on the energy difference \<open>d\<close>, the
  bracket \<open>[lo, hi]\<close> and the tolerance \<open>tol\<close>, in the argument order of the notebook's
  call.
\<close>

definition bisect ::
  "(real \<Rightarrow> real) \<Rightarrow> real \<Rightarrow> real \<Rightarrow> real \<Rightarrow> (search_error + real) option" where
  "bisect d lo hi tol =
     (if sign_change d (lo, hi) then map_option Inr (bisect_loop d tol (lo, hi))
      else Some (Inl (NoBracket (d lo) (d hi))))"

text \<open>
  Modelled from the spec: the brackets the loop goes through. \<open>bisect_brackets d tol b c\<close>
  holds when the loop started on \<open>b\<close> reaches \<open>c\<close>, each step narrowing a bracket whose
  width is not yet below the tolerance.
\<close>

inductive bisect_brackets :: "(real \<Rightarrow> real) \<Rightarrow> real \<Rightarrow> bracket \<Rightarrow> bracket \<Rightarrow> bool"
  for d :: "real \<Rightarrow> real" and tol :: real where
  start: "bisect_brackets d tol b b"
| narrowed: "\<not> width b < tol \<Longrightarrow> bisect_brackets d tol (narrow d b) c \<Longrightarrow>
             bisect_brackets d tol b c"

section \<open>Properties of the flower initialiser\<close>

lemma m_init_flower_eq:
  "m_init_flower pos =
     (if norm_squared (flower_vector pos) \<le> 0.05 then (1, 0, 0) else flower_vector pos)"
  by (cases pos) (simp add: m_init_flower_def flower_vector_def norm_squared_def Let_def)

text \<open>
  C2. Where the flower vector \<open>(0, -2z+1, 2y-1)\<close> has squared norm at most 0.05 the
  initialiser returns the fallback direction \<open>(1, 0, 0)\<close>; everywhere else it returns the
  flower vector itself; and the vector it returns never has norm zero.
\<close>

theorem m_init_flower_fallback:
  "(norm_squared (flower_vector pos) \<le> 0.05 \<longrightarrow> m_init_flower pos = (1, 0, 0)) \<and>
   (\<not> norm_squared (flower_vector pos) \<le> 0.05 \<longrightarrow> m_init_flower pos = flower_vector pos) \<and>
   norm_squared (m_init_flower pos) \<noteq> 0 \<and>
   m_init_flower pos \<noteq> (0, 0, 0)"
proof -
  have fallback: "norm_squared (1, 0, 0) = 1"
    by (simp add: norm_squared_def)
  have zero: "norm_squared (0, 0, 0) = 0"
    by (simp add: norm_squared_def)
  show ?thesis
  proof (cases "norm_squared (flower_vector pos) \<le> 0.05")
    case True
    then have "m_init_flower pos = (1, 0, 0)"
      by (simp add: m_init_flower_eq)
    with True show ?thesis
      by (simp add: fallback)
  next
    case False
    then have eq: "m_init_flower pos = flower_vector pos"
      by (simp add: m_init_flower_eq)
    from False have "norm_squared (flower_vector pos) \<noteq> 0"
      by auto
    with False eq zero show ?thesis
      by auto
  qed
qed

theorem m_init_flower_fallback_witness:
  "m_init_flower (0, 1 / (2 * 10 ^ 9), 1 / (2 * 10 ^ 9)) = (1, 0, 0) \<and>
   m_init_flower (0, 0, 0) = (0, 1, - 1) \<and>
   norm_squared (m_init_flower (0, 0, 0)) \<noteq> 0"
proof -
  have centre: "norm_squared (flower_vector (0, 1 / (2 * 10 ^ 9), 1 / (2 * 10 ^ 9))) \<le> 0.05"
    by (simp add: flower_vector_def norm_squared_def)
  have corner: "\<not> norm_squared (flower_vector (0, 0, 0)) \<le> 0.05"
    by (simp add: flower_vector_def norm_squared_def)
  have val: "flower_vector (0, 0, 0) = (0, 1, - 1)"
    by (simp add: flower_vector_def)
  from m_init_flower_fallback [of "(0, 1 / (2 * 10 ^ 9), 1 / (2 * 10 ^ 9))"]
       m_init_flower_fallback [of "(0, 0, 0)"] centre corner val
  show ?thesis
    by simp
qed

text \<open>
  C10. The flower initialiser does not read the x coordinate: two positions with the same
  y and z coordinates get the same vector.
\<close>

theorem m_init_flower_independent_of_x:
  "m_init_flower (x1, y, z) = m_init_flower (x2, y, z)"
  by (simp add: m_init_flower_def)



section \<open>Rounding to double precision\<close>

lemma round_to_even_near: "\<bar>of_int (round_to_even x) - x\<bar> \<le> 1 / 2"
  unfolding round_to_even_def Let_def by (auto simp: abs_le_iff)

lemma round_to_even_eqI: "\<bar>x - of_int m\<bar> < 1 / 2 \<Longrightarrow> round_to_even x = m"
proof -
  assume close: "\<bar>x - of_int m\<bar> < 1 / 2"
  from close have "of_int m - 1 \<le> x" and "x < of_int m + 1"
    by linarith+
  then have "of_int (m - 1) \<le> x" and "x < of_int (m + 1)"
    by simp_all
  then have "m - 1 \<le> \<lfloor>x\<rfloor>" and "\<lfloor>x\<rfloor> < m + 1"
    by (simp_all only: le_floor_iff floor_less_iff)
  then have "\<lfloor>x\<rfloor> = m \<or> \<lfloor>x\<rfloor> = m - 1"
    by arith
  then show ?thesis
  proof
    assume "\<lfloor>x\<rfloor> = m"
    with close show ?thesis
      unfolding round_to_even_def Let_def by (auto simp: abs_less_iff)
  next
    assume "\<lfloor>x\<rfloor> = m - 1"
    with close show ?thesis
      unfolding round_to_even_def Let_def by (auto simp: abs_less_iff; linarith)
  qed
qed

lemma exponent_bounds:
  assumes "x \<noteq> 0"
  shows "2 powr of_int (exponent x + 52) \<le> \<bar>x\<bar>" and "\<bar>x\<bar> < 2 powr of_int (exponent x + 53)"
proof -
  have pos: "0 < \<bar>x\<bar>" using assms by simp
  have "of_int \<lfloor>log 2 \<bar>x\<bar>\<rfloor> \<le> log 2 \<bar>x\<bar>" by simp
  then have "2 powr of_int \<lfloor>log 2 \<bar>x\<bar>\<rfloor> \<le> 2 powr log 2 \<bar>x\<bar>"
    by (simp only: powr_le_cancel_iff) 
  with pos show "2 powr of_int (exponent x + 52) \<le> \<bar>x\<bar>"
    by (simp add: exponent_def)
  have "log 2 \<bar>x\<bar> < of_int (\<lfloor>log 2 \<bar>x\<bar>\<rfloor> + 1)" by linarith
  then have "2 powr log 2 \<bar>x\<bar> < 2 powr of_int (\<lfloor>log 2 \<bar>x\<bar>\<rfloor> + 1)"
    by (simp only: powr_less_cancel_iff) 
  with pos show "\<bar>x\<bar> < 2 powr of_int (exponent x + 53)"
    by (simp add: exponent_def add.commute)
qed

lemma exponent_eqI:
  assumes "2 powr of_int (e + 52) \<le> \<bar>x\<bar>" and "\<bar>x\<bar> < 2 powr of_int (e + 53)"
  shows "exponent x = e"
proof -
  have pos: "0 < \<bar>x\<bar>"
    using assms(1) powr_gt_zero [of 2 "of_int (e + 52)"] by linarith
  from assms(1) pos have "of_int (e + 52) \<le> log 2 \<bar>x\<bar>"
    by (simp add: le_log_iff)
  moreover from assms(2) pos have "log 2 \<bar>x\<bar> < of_int (e + 53)"
    by (simp add: log_less_iff)
  ultimately have "\<lfloor>log 2 \<bar>x\<bar>\<rfloor> = e + 52"
    by (intro floor_unique) simp_all
  then show ?thesis
    by (simp add: exponent_def)
qed

lemma fl_error: "\<bar>fl x - x\<bar> \<le> \<bar>x\<bar> / 2 ^ 53"
proof (cases "x = 0")
  case True
  then show ?thesis by (simp add: fl_def)
next
  case False
  define s :: real where "s = 2 powr of_int (exponent x)"
  have s_pos: "0 < s" by (simp add: s_def)
  have "2 powr of_int (exponent x + 52) = s * 2 ^ 52"
    by (simp add: s_def powr_add)
  with exponent_bounds(1) [OF False] have low: "s * 2 ^ 52 \<le> \<bar>x\<bar>" by simp
  have "fl x - x = s * (of_int (round_to_even (x / s)) - x / s)"
    using False s_pos by (simp add: fl_def s_def field_simps)
  then have "\<bar>fl x - x\<bar> = s * \<bar>of_int (round_to_even (x / s)) - x / s\<bar>"
    using s_pos by (simp add: abs_mult)
  also have "\<dots> \<le> s * (1 / 2)"
    using s_pos round_to_even_near [of "x / s"] by (intro mult_left_mono) simp_all
  also have "\<dots> = s * 2 ^ 52 / 2 ^ 53" by simp
  also have "\<dots> \<le> \<bar>x\<bar> / 2 ^ 53"
    using low by (intro divide_right_mono) simp_all
  finally show ?thesis .
qed

lemma fl_eqI:
  fixes k :: nat
  assumes "2 ^ 52 \<le> \<bar>x\<bar> * 2 ^ k" and "\<bar>x\<bar> * 2 ^ k < 2 ^ 53"
    and "\<bar>x * 2 ^ k - of_int m\<bar> < 1 / 2"
  shows "fl x = of_int m / 2 ^ k"
proof -
  have nz: "x \<noteq> 0" using assms(1) by auto
  have p: "(2::real) powr of_int (- int k) = 1 / 2 ^ k"
    by (simp add: powr_minus powr_realpow divide_simps)
  have "(2::real) powr (of_int (- int k) + 52) = 2 powr of_int (- int k) * 2 powr 52"
    by (rule powr_add)
  then have lo: "(2::real) powr of_int (- int k + 52) = 2 ^ 52 / 2 ^ k"
    by (simp only: p of_int_add of_int_numeral) simp
  have "(2::real) powr (of_int (- int k) + 53) = 2 powr of_int (- int k) * 2 powr 53"
    by (rule powr_add)
  then have hi: "(2::real) powr of_int (- int k + 53) = 2 ^ 53 / 2 ^ k"
    by (simp only: p of_int_add of_int_numeral) simp
  have pk: "(0::real) < 2 ^ k" by simp
  from assms(1) have "2 ^ 52 / 2 ^ k \<le> \<bar>x\<bar>"
    by (simp only: pos_divide_le_eq [OF pk])
  then have low: "2 powr of_int (- int k + 52) \<le> \<bar>x\<bar>"
    by (simp only: lo)
  from assms(2) have "\<bar>x\<bar> < 2 ^ 53 / 2 ^ k"
    by (simp only: pos_less_divide_eq [OF pk])
  then have high: "\<bar>x\<bar> < 2 powr of_int (- int k + 53)"
    by (simp only: hi)
  from low high have "exponent x = - int k"
    by (rule exponent_eqI)
  moreover have "(2::real) powr (- real k) = 1 / 2 ^ k"
    by (simp add: powr_minus powr_realpow divide_simps)
  ultimately have "fl x = of_int (round_to_even (x * 2 ^ k)) / 2 ^ k"
    using nz by (simp add: fl_def)
  with round_to_even_eqI [OF assms(3)] show ?thesis by simp
qed

lemma fl_sqrt_eqI:
  fixes k :: nat and m :: int
  assumes "((of_int m - 1 / 2) / 2 ^ k)\<^sup>2 < x" and "x < ((of_int m + 1 / 2) / 2 ^ k)\<^sup>2"
    and "2 ^ 52 \<le> of_int m - (1 / 2 :: real)" and "of_int m + (1 / 2 :: real) \<le> 2 ^ 53"
  shows "fl (sqrt x) = of_int m / 2 ^ k"
proof -
  define r where "r = sqrt x"
  have pk: "(0::real) < 2 ^ k" by simp
  from assms(1) have "(of_int m - 1 / 2) / 2 ^ k < r"
    unfolding r_def by (rule real_less_rsqrt)
  then have lo: "of_int m - 1 / 2 < r * 2 ^ k"
    by (simp only: pos_divide_less_eq [OF pk])
  have "(0::real) \<le> 2 ^ 52"
    by simp
  with assms(3) have "(0::real) \<le> of_int m + 1 / 2"
    by linarith
  then have upper: "0 \<le> (of_int m + 1 / 2) / (2 ^ k :: real)"
    by (rule divide_nonneg_nonneg) simp
  from upper assms(2) have "r < (of_int m + 1 / 2) / 2 ^ k"
    unfolding r_def by (rule real_less_lsqrt)
  then have hi: "r * 2 ^ k < of_int m + 1 / 2"
    by (simp only: pos_less_divide_eq [OF pk])
  have "0 \<le> ((of_int m - 1 / 2) / 2 ^ k :: real)\<^sup>2"
    by (rule zero_le_power2)
  from le_less_trans [OF this assms(1)] have "0 \<le> r"
    by (simp add: r_def)
  then have "\<bar>r\<bar> = r"
    by simp
  moreover from lo assms(3) have "2 ^ 52 \<le> r * 2 ^ k"
    by linarith
  moreover from hi assms(4) have "r * 2 ^ k < 2 ^ 53"
    by linarith
  ultimately have "2 ^ 52 \<le> \<bar>r\<bar> * 2 ^ k" and "\<bar>r\<bar> * 2 ^ k < 2 ^ 53"
    by (simp_all only:)
  moreover from lo hi have "\<bar>r * 2 ^ k - of_int m\<bar> < 1 / 2"
    by linarith
  ultimately have "fl r = of_int m / 2 ^ k"
    by (rule fl_eqI)
  then show ?thesis
    by (simp only: r_def)
qed

subsection \<open>Counting roundings\<close>

lemma wr_fl: "0 < x \<Longrightarrow> within_roundings 1 (fl x) x"
proof -
  assume pos: "0 < x"
  with fl_error [of x] have "\<bar>fl x - x\<bar> \<le> x / 2 ^ 53" by simp
  then have "x - x / 2 ^ 53 \<le> fl x" and "fl x \<le> x + x / 2 ^ 53"
    by linarith+
  then show ?thesis
    by (simp add: within_roundings_def algebra_simps)
qed

lemma wr_pos: "within_roundings k x y \<Longrightarrow> 0 < y \<Longrightarrow> 0 < x"
proof -
  assume w: "within_roundings k x y" and pos: "0 < y"
  have "0 < (1 - 1 / 2 ^ 53) ^ k * y"
    using pos by simp
  with w show ?thesis by (simp add: within_roundings_def)
qed

lemma wr_refl: "within_roundings 0 x x"
  by (simp add: within_roundings_def)

lemma wr_trans:
  assumes "within_roundings j x y" and "within_roundings k y z"
  shows "within_roundings (j + k) x z"
proof -
  from assms have xy: "(1 - 1 / 2 ^ 53) ^ j * y \<le> x" "x \<le> (1 + 1 / 2 ^ 53) ^ j * y"
    and yz: "(1 - 1 / 2 ^ 53) ^ k * z \<le> y" "y \<le> (1 + 1 / 2 ^ 53) ^ k * z"
    unfolding within_roundings_def by blast+
  have "(1 - 1 / 2 ^ 53) ^ j * ((1 - 1 / 2 ^ 53) ^ k * z) \<le> (1 - 1 / 2 ^ 53) ^ j * y"
    using yz(1) by (rule mult_left_mono) simp
  with xy(1) have lo: "(1 - 1 / 2 ^ 53) ^ j * ((1 - 1 / 2 ^ 53) ^ k * z) \<le> x"
    by (rule order_trans [rotated])
  have "(1 + 1 / 2 ^ 53) ^ j * y \<le> (1 + 1 / 2 ^ 53) ^ j * ((1 + 1 / 2 ^ 53) ^ k * z)"
    using yz(2) by (rule mult_left_mono) simp
  with xy(2) have hi: "x \<le> (1 + 1 / 2 ^ 53) ^ j * ((1 + 1 / 2 ^ 53) ^ k * z)"
    by (rule order_trans)
  from lo hi show ?thesis
    unfolding within_roundings_def power_add mult.assoc by blast
qed

lemma wr_mult:
  assumes "within_roundings j a b" and "within_roundings k c d" and "0 < b" and "0 < d"
  shows "within_roundings (j + k) (a * c) (b * d)"
proof -
  have a: "0 < a" and c: "0 < c"
    using assms by (auto intro: wr_pos)
  have lj: "(0::real) \<le> (1 - 1 / 2 ^ 53) ^ j * b" and lk: "(0::real) \<le> (1 - 1 / 2 ^ 53) ^ k * d"
    using assms(3,4) by simp_all
  have "((1 - 1 / 2 ^ 53) ^ j * b) * ((1 - 1 / 2 ^ 53) ^ k * d) \<le> a * c"
    using assms(1,2) lj lk a by (intro mult_mono) (simp_all add: within_roundings_def)
  moreover have "a * c \<le> ((1 + 1 / 2 ^ 53) ^ j * b) * ((1 + 1 / 2 ^ 53) ^ k * d)"
    using assms(1,2) a c assms(3) by (intro mult_mono) (simp_all add: within_roundings_def)
  ultimately show ?thesis
    by (simp add: within_roundings_def power_add mult_ac)
qed

lemma wr_div: "within_roundings k a b \<Longrightarrow> 0 < c \<Longrightarrow> within_roundings k (a / c) (b / c)"
  by (simp add: within_roundings_def divide_right_mono)

lemma wr_sqrt:
  assumes "within_roundings (2 * k) a b" and "0 \<le> b"
  shows "within_roundings k (sqrt a) (sqrt b)"
proof -
  have lo: "sqrt ((1 - 1 / 2 ^ 53) ^ (2 * k) * b) = (1 - 1 / 2 ^ 53) ^ k * sqrt b"
    by (simp add: real_sqrt_mult power_even_eq)
  have hi: "sqrt ((1 + 1 / 2 ^ 53) ^ (2 * k) * b) = (1 + 1 / 2 ^ 53) ^ k * sqrt b"
    by (simp add: real_sqrt_mult power_even_eq)
  from assms(1) have "sqrt ((1 - 1 / 2 ^ 53) ^ (2 * k) * b) \<le> sqrt a"
    and "sqrt a \<le> sqrt ((1 + 1 / 2 ^ 53) ^ (2 * k) * b)"
    by (simp_all add: within_roundings_def)
  then show ?thesis
    by (simp only: lo hi within_roundings_def)
qed

lemma wr_mono:
  assumes "within_roundings j x y" and "j \<le> k" and "0 \<le> y"
  shows "within_roundings k x y"
proof -
  have "(1 - 1 / 2 ^ 53) ^ k \<le> (1 - 1 / 2 ^ 53 :: real) ^ j"
    using assms(2) by (intro power_decreasing) simp_all
  then have "(1 - 1 / 2 ^ 53) ^ k * y \<le> (1 - 1 / 2 ^ 53) ^ j * y"
    using assms(3) by (rule mult_right_mono)
  moreover have "(1 + 1 / 2 ^ 53) ^ j \<le> (1 + 1 / 2 ^ 53 :: real) ^ k"
    using assms(2) by (intro power_increasing) simp_all
  then have "(1 + 1 / 2 ^ 53) ^ j * y \<le> (1 + 1 / 2 ^ 53) ^ k * y"
    using assms(3) by (rule mult_right_mono)
  ultimately show ?thesis
    using assms(1) by (simp add: within_roundings_def)
qed

lemma six_roundings_low: "1 - 1 / 2 ^ 50 \<le> (1 - 1 / 2 ^ 53 :: real) ^ 6"
  by (simp add: power_divide)

lemma six_roundings_high: "(1 + 1 / 2 ^ 53 :: real) ^ 6 \<le> 1 + 1 / 2 ^ 50"
  by (simp add: power_divide)

lemma wr_bound:
  assumes "within_roundings k x y" and "k \<le> 6" and "0 \<le> y"
  shows "\<bar>x - y\<bar> \<le> y / 2 ^ 50"
proof -
  from assms have "within_roundings 6 x y" by (rule wr_mono)
  then have lo: "(1 - 1 / 2 ^ 53) ^ 6 * y \<le> x" and hi: "x \<le> (1 + 1 / 2 ^ 53) ^ 6 * y"
    by (simp_all only: within_roundings_def)
  have "(1 - 1 / 2 ^ 50) * y \<le> (1 - 1 / 2 ^ 53) ^ 6 * y"
    using six_roundings_low assms(3) by (rule mult_right_mono)
  moreover have "(1 + 1 / 2 ^ 53) ^ 6 * y \<le> (1 + 1 / 2 ^ 50) * y"
    using six_roundings_high assms(3) by (rule mult_right_mono)
  ultimately have "(1 - 1 / 2 ^ 50) * y \<le> x" and "x \<le> (1 + 1 / 2 ^ 50) * y"
    using lo hi by linarith+
  then have "y - y / 2 ^ 50 \<le> x" and "x \<le> y + y / 2 ^ 50"
    by (simp_all add: algebra_simps)
  then show ?thesis
    by linarith
qed

section \<open>The material constants\<close>

subsection \<open>How far the constants are from the exact values\<close>

lemma Km_pos: "0 < Km"
  by (simp add: Km_def)

lemma wr_fl_trans:
  "within_roundings k x y \<Longrightarrow> 0 < y \<Longrightarrow> within_roundings (1 + k) (fl x) y"
proof -
  assume w: "within_roundings k x y" and pos: "0 < y"
  from w pos have "0 < x" by (rule wr_pos)
  then have "within_roundings 1 (fl x) x" by (rule wr_fl)
  then show ?thesis using w by (rule wr_trans)
qed

lemma Ms_roundings:
  assumes "0 < mu0"
  shows "within_roundings 2 (Ms mu0) (sqrt (2 * Km / mu0))"
proof -
  have target: "0 < 2 * Km / mu0"
    using assms Km_pos by simp
  have "0 < 2 * Km"
    using Km_pos by simp
  then have "within_roundings 1 (fl (2 * Km)) (2 * Km)"
    by (rule wr_fl)
  then have "within_roundings 1 (fl (2 * Km) / mu0) (2 * Km / mu0)"
    using assms by (rule wr_div)
  then have "within_roundings (1 + 1) (fl (fl (2 * Km) / mu0)) (2 * Km / mu0)"
    using target by (rule wr_fl_trans)
  then have "within_roundings (2 * 1) (fl (fl (2 * Km) / mu0)) (2 * Km / mu0)"
    by (simp only: one_add_one mult_1_right)
  moreover have "0 \<le> 2 * Km / mu0"
    using target by simp
  ultimately have "within_roundings 1 (sqrt (fl (fl (2 * Km) / mu0))) (sqrt (2 * Km / mu0))"
    by (rule wr_sqrt)
  moreover have "0 < sqrt (2 * Km / mu0)"
    using target by simp
  ultimately have "within_roundings (1 + 1) (fl (sqrt (fl (fl (2 * Km) / mu0))))
      (sqrt (2 * Km / mu0))"
    by (rule wr_fl_trans)
  then show ?thesis
    by (simp only: Ms_def one_add_one)
qed

lemma Ms_squared_roundings:
  assumes "0 < mu0"
  shows "within_roundings 4 (Ms mu0 ^ 2) (2 * Km / mu0)"
proof -
  have target: "0 < 2 * Km / mu0"
    using assms Km_pos by simp
  then have root: "0 < sqrt (2 * Km / mu0)"
    by simp
  note m = Ms_roundings [OF assms]
  from wr_mult [OF m m root root]
  have "within_roundings (2 + 2) (Ms mu0 * Ms mu0) (sqrt (2 * Km / mu0) * sqrt (2 * Km / mu0))" .
  moreover have "sqrt (2 * Km / mu0) * sqrt (2 * Km / mu0) = 2 * Km / mu0"
    by (simp only: real_sqrt_mult_self abs_of_pos [OF target])
  moreover have "(2::nat) + 2 = 4"
    by simp
  ultimately show ?thesis
    by (simp only: power2_eq_square)
qed

lemma half_mu0_Ms_squared:
  assumes "0 < mu0"
  shows "\<bar>1 / 2 * mu0 * Ms mu0 ^ 2 - Km\<bar> \<le> Km / 2 ^ 50"
proof -
  have half: "0 < 1 / 2 * mu0"
    using assms by simp
  have target: "0 < 2 * Km / mu0"
    using assms Km_pos by simp
  from wr_mult [OF wr_refl Ms_squared_roundings [OF assms] half target]
  have "within_roundings (0 + 4) (1 / 2 * mu0 * Ms mu0 ^ 2) (1 / 2 * mu0 * (2 * Km / mu0))" .
  moreover have "1 / 2 * mu0 * (2 * Km / mu0) = Km"
    using assms by simp
  ultimately have "within_roundings (0 + 4) (1 / 2 * mu0 * Ms mu0 ^ 2) Km"
    by (simp only:)
  moreover have "(0::nat) + 4 \<le> 6"
    by simp
  moreover have "0 \<le> Km"
    using Km_pos by simp
  ultimately show ?thesis
    by (rule wr_bound)
qed

lemma cubesize_pos: "0 < cubesize"
proof -
  have "within_roundings 1 (fl (100 / 10 ^ 9)) (100 / 10 ^ 9)"
    by (intro wr_fl) simp
  then have "0 < fl (100 / 10 ^ 9)"
    by (rule wr_pos) simp
  then show ?thesis by (simp add: cubesize_def)
qed

lemma A_roundings:
  assumes "0 < mu0" and "0 < L"
  shows "within_roundings 11 (A mu0 L) (Km * (cubesize / L) ^ 2)"
proof -
  have ratio: "0 < 2 * Km / mu0"
    using assms Km_pos by simp
  have half: "0 < 0.5 * mu0"
    using assms by simp
  have edge: "0 < cubesize / L"
    using assms cubesize_pos by simp
  then have square: "0 < (cubesize / L) ^ 2"
    by (rule zero_less_power)
  have "within_roundings 1 (fl (0.5 * mu0)) (0.5 * mu0)"
    using half by (rule wr_fl)
  moreover have "within_roundings (1 + 4) (fl (Ms mu0 ^ 2)) (2 * Km / mu0)"
    using Ms_squared_roundings [OF assms(1)] ratio by (rule wr_fl_trans)
  ultimately have "within_roundings (1 + (1 + 4)) (fl (0.5 * mu0) * fl (Ms mu0 ^ 2))
      (0.5 * mu0 * (2 * Km / mu0))"
    using half ratio by (rule wr_mult)
  moreover have "0.5 * mu0 * (2 * Km / mu0) = Km"
    using assms by simp
  ultimately have "within_roundings (1 + (1 + 4)) (fl (0.5 * mu0) * fl (Ms mu0 ^ 2)) Km"
    by (simp only:)
  then have energy:
    "within_roundings (1 + (1 + (1 + 4))) (fl (fl (0.5 * mu0) * fl (Ms mu0 ^ 2))) Km"
    using Km_pos by (rule wr_fl_trans)
  have "within_roundings 1 (fl (cubesize / L)) (cubesize / L)"
    using edge by (rule wr_fl)
  then have l: "within_roundings 1 (lex_exchange L) (cubesize / L)"
    by (simp only: lex_exchange_def)
  from wr_mult [OF l l edge edge]
  have "within_roundings (1 + 1) (lex_exchange L ^ 2) ((cubesize / L) ^ 2)"
    by (simp only: power2_eq_square)
  then have "within_roundings (1 + (1 + 1)) (fl (lex_exchange L ^ 2)) ((cubesize / L) ^ 2)"
    using square by (rule wr_fl_trans)
  with energy have "within_roundings ((1 + (1 + (1 + 4))) + (1 + (1 + 1)))
      (fl (fl (0.5 * mu0) * fl (Ms mu0 ^ 2)) * fl (lex_exchange L ^ 2))
      (Km * (cubesize / L) ^ 2)"
    using Km_pos square by (rule wr_mult)
  moreover have "0 < Km * (cubesize / L) ^ 2"
    using Km_pos square by simp
  ultimately have "within_roundings (1 + ((1 + (1 + (1 + 4))) + (1 + (1 + 1))))
      (fl (fl (fl (0.5 * mu0) * fl (Ms mu0 ^ 2)) * fl (lex_exchange L ^ 2)))
      (Km * (cubesize / L) ^ 2)"
    by (rule wr_fl_trans)
  moreover have "1 + ((1 + (1 + (1 + 4))) + (1 + (1 + 1))) = (11::nat)"
    by simp
  ultimately show ?thesis
    by (simp only: A_def)
qed

lemma exchange_length_roundings:
  assumes "0 < mu0" and "0 < L"
  shows "within_roundings 6 (sqrt (A mu0 L / Km)) (cubesize / L)"
proof -
  have edge: "0 < cubesize / L"
    using assms cubesize_pos by simp
  from A_roundings [OF assms] Km_pos
  have "within_roundings 11 (A mu0 L / Km) (Km * (cubesize / L) ^ 2 / Km)"
    by (rule wr_div)
  moreover have "Km * (cubesize / L) ^ 2 / Km = (cubesize / L) ^ 2"
    using Km_pos by simp
  ultimately have "within_roundings 11 (A mu0 L / Km) ((cubesize / L) ^ 2)"
    by (simp only:)
  moreover have "(11::nat) \<le> 2 * 6"
    by simp
  moreover have nonneg: "0 \<le> (cubesize / L) ^ 2"
    by simp
  ultimately have "within_roundings (2 * 6) (A mu0 L / Km) ((cubesize / L) ^ 2)"
    by (rule wr_mono)
  then have "within_roundings 6 (sqrt (A mu0 L / Km)) (sqrt ((cubesize / L) ^ 2))"
    using nonneg by (rule wr_sqrt)
  moreover have "sqrt ((cubesize / L) ^ 2) = cubesize / L"
    by (simp only: real_sqrt_abs abs_of_pos [OF edge])
  ultimately show ?thesis
    by (simp only:)
qed

lemma exchange_length_bound:
  assumes "0 < mu0" and "0 < L"
  shows "\<bar>sqrt (A mu0 L / Km) - cubesize / L\<bar> \<le> cubesize / L / 2 ^ 50"
proof -
  have "0 \<le> cubesize / L"
    using assms cubesize_pos by simp
  with exchange_length_roundings [OF assms] order_refl show ?thesis
    by (rule wr_bound)
qed

lemma six_roundings_inverse_low: "1 - 1 / 2 ^ 50 \<le> 1 / (1 + 1 / 2 ^ 53 :: real) ^ 6"
  by (simp add: power_divide)

lemma six_roundings_inverse_high: "1 / (1 - 1 / 2 ^ 53 :: real) ^ 6 \<le> 1 + 1 / 2 ^ 50"
  by (simp add: power_divide)

lemma edge_length_roundings:
  assumes "0 < mu0" and "0 < L"
  shows "\<bar>cubesize / sqrt (A mu0 L / Km) - L\<bar> \<le> L / 2 ^ 50"
proof -
  define s where "s = sqrt (A mu0 L / Km)"
  define c where "c = cubesize / L"
  have c_pos: "0 < c"
    using assms cubesize_pos by (simp add: c_def)
  have w: "within_roundings 6 s c"
    unfolding s_def c_def using assms by (rule exchange_length_roundings)
  then have s_pos: "0 < s"
    using c_pos by (rule wr_pos)
  from w have lo: "(1 - 1 / 2 ^ 53) ^ 6 * c \<le> s" and hi: "s \<le> (1 + 1 / 2 ^ 53) ^ 6 * c"
    unfolding within_roundings_def by blast+
  have "c / s \<le> 1 / (1 - 1 / 2 ^ 53) ^ 6"
    using lo s_pos c_pos by (simp add: field_simps)
  with six_roundings_inverse_high have up: "c / s \<le> 1 + 1 / 2 ^ 50"
    by (rule order_trans [rotated])
  have "1 / (1 + 1 / 2 ^ 53) ^ 6 \<le> c / s"
    using hi s_pos c_pos by (simp add: field_simps)
  with six_roundings_inverse_low have down: "1 - 1 / 2 ^ 50 \<le> c / s"
    by (rule order_trans)
  have eq: "L * (c / s) = cubesize / s"
    using assms(2) by (simp add: c_def)
  have nonneg: "0 \<le> L"
    using assms(2) by simp
  have "L * (1 - 1 / 2 ^ 50) \<le> L * (c / s)"
    using down nonneg by (rule mult_left_mono)
  then have "L * (1 - 1 / 2 ^ 50) \<le> cubesize / s"
    by (simp only: eq)
  moreover have "L * (1 - 1 / 2 ^ 50) = L - L / 2 ^ 50"
    by (simp add: algebra_simps)
  ultimately have below: "L - L / 2 ^ 50 \<le> cubesize / s"
    by (simp only:)
  have "L * (c / s) \<le> L * (1 + 1 / 2 ^ 50)"
    using up nonneg by (rule mult_left_mono)
  then have "cubesize / s \<le> L * (1 + 1 / 2 ^ 50)"
    by (simp only: eq)
  moreover have "L * (1 + 1 / 2 ^ 50) = L + L / 2 ^ 50"
    by (simp add: algebra_simps)
  ultimately have above: "cubesize / s \<le> L + L / 2 ^ 50"
    by (simp only:)
  from below above show ?thesis
    unfolding s_def by linarith
qed

subsection \<open>The constants at the SI value of the vacuum permeability\<close>

lemma twice_Km_value: "fl (2 * Km) = 2000000"
  using fl_eqI [of "2 * Km" 32 8589934592000000] by (simp add: Km_def)

lemma ratio_value: "fl (2000000 / mu0_double) = 6518986469044033 / 2 ^ 12"
  using fl_eqI [of "2000000 / mu0_double" 12 6518986469044033] by (simp add: mu0_double_def)

lemma root_value: "fl (sqrt (6518986469044033 / 2 ^ 12)) = 5418385832775294 / 2 ^ 32"
  using fl_sqrt_eqI [of 5418385832775294 32 "6518986469044033 / 2 ^ 12"]
  by (simp add: power2_eq_square)

lemma Ms_value: "Ms mu0_double = 5418385832775294 / 2 ^ 32"
  by (simp only: Ms_def twice_Km_value ratio_value root_value)

lemma half_mu0_value: "fl (0.5 * mu0_double) = 5934300740056779 / 2 ^ 73"
  using fl_eqI [of "0.5 * mu0_double" 73 5934300740056779] by (simp add: mu0_double_def)

lemma Ms_squared_value: "fl ((5418385832775294 / 2 ^ 32) ^ 2) = 6518986469044034 / 2 ^ 12"
  using fl_eqI [of "(5418385832775294 / 2 ^ 32) ^ 2" 12 6518986469044034]
  by (simp add: power2_eq_square)

lemma product_value:
  "fl (5934300740056779 / 2 ^ 73 * (6518986469044034 / 2 ^ 12)) = 8589934592000001 / 2 ^ 33"
  using fl_eqI [of "5934300740056779 / 2 ^ 73 * (6518986469044034 / 2 ^ 12)" 33 8589934592000001]
  by simp

lemma half_mu0_Ms_squared_value:
  "fl (fl (0.5 * mu0_double) * fl (Ms mu0_double ^ 2)) = 8589934592000001 / 2 ^ 33"
  by (simp only: Ms_value half_mu0_value Ms_squared_value product_value)

lemma cubesize_value: "cubesize = 7555786372591432 / 2 ^ 76"
  using fl_eqI [of "100 / 10 ^ 9" 76 7555786372591432] by (simp add: cubesize_def)

lemma quotient_value: "fl (7555786372591432 / 2 ^ 76 / (17 / 2)) = 7111328350674289 / 2 ^ 79"
  using fl_eqI [of "7555786372591432 / 2 ^ 76 / (17 / 2)" 79 7111328350674289] by simp

lemma lex_value: "lex_exchange (17 / 2) = 7111328350674289 / 2 ^ 79"
  by (simp only: lex_exchange_def cubesize_value quotient_value)

lemma lex_squared_value: "fl ((7111328350674289 / 2 ^ 79) ^ 2) = 5614507848761708 / 2 ^ 105"
  using fl_eqI [of "(7111328350674289 / 2 ^ 79) ^ 2" 105 5614507848761708]
  by (simp add: power2_eq_square)

lemma A_product_value:
  "fl (8589934592000001 / 2 ^ 33 * (5614507848761708 / 2 ^ 105)) = 5354411934625348 / 2 ^ 85"
  using fl_eqI [of "8589934592000001 / 2 ^ 33 * (5614507848761708 / 2 ^ 105)" 85 5354411934625348]
  by simp

lemma A_value: "A mu0_double (17 / 2) = 5354411934625348 / 2 ^ 85"
  by (simp only: A_def Ms_value half_mu0_value Ms_squared_value product_value lex_value lex_squared_value A_product_value)

lemma A_over_Km_value: "fl (5354411934625348 / 2 ^ 85 / Km) = 5614507848761709 / 2 ^ 105"
  using fl_eqI [of "5354411934625348 / 2 ^ 85 / Km" 105 5614507848761709] by (simp add: Km_def)

lemma exchange_length_root_value:
  "fl (sqrt (5614507848761709 / 2 ^ 105)) = 7111328350674290 / 2 ^ 79"
  using fl_sqrt_eqI [of 7111328350674290 79 "5614507848761709 / 2 ^ 105"]
  by (simp add: power2_eq_square)

lemma exchange_length_value:
  "fl (sqrt (fl (A mu0_double (17 / 2) / Km))) = 7111328350674290 / 2 ^ 79"
  by (simp only: A_value A_over_Km_value exchange_length_root_value)

lemma edge_quotient_value:
  "fl (7555786372591432 / 2 ^ 76 / (7111328350674290 / 2 ^ 79)) = 4785074604081151 / 2 ^ 49"
  using fl_eqI [of "7555786372591432 / 2 ^ 76 / (7111328350674290 / 2 ^ 79)" 49 4785074604081151]
  by simp

lemma edge_value:
  "fl (cubesize / fl (sqrt (fl (A mu0_double (17 / 2) / Km)))) = 4785074604081151 / 2 ^ 49"
  by (simp only: exchange_length_value cubesize_value edge_quotient_value)

lemma tenth_value: "fl 0.1 = 7205759403792794 / 2 ^ 56"
  using fl_eqI [of "0.1" 56 7205759403792794] by simp

lemma K_product_value: "fl (7205759403792794 / 2 ^ 56 * Km) = 100000"
  using fl_eqI [of "7205759403792794 / 2 ^ 56 * Km" 36 6871947673600000] by (simp add: Km_def)

lemma K_value: "K = 0.1 * Km"
proof -
  have "K = 100000"
    by (simp only: K_def tenth_value K_product_value)
  then show ?thesis
    by (simp add: Km_def)
qed

text \<open>
  C9, as the code has it. For a vacuum permeability and an edge length \<open>L\<close> between
  \<open>2 ^ -100\<close> and \<open>2 ^ 100\<close>, where no operation on the constants overflows or
  underflows, the constants satisfy the relations up to rounding: half of \<open>mu0 * Ms\<^sup>2\<close> is \<open>Km\<close> to within
  the relative error \<open>2 ^ -50\<close>; the exchange length \<open>sqrt (A / Km)\<close> is \<open>cubesize / L\<close> to
  within the same relative error, so the cube's edge is \<open>L\<close> exchange lengths to within
  it; the anisotropy constant is \<open>0.1 * Km\<close>; and these are the constants of the system
  handed to the driver.
\<close>

theorem material_constants_up_to_rounding:
  assumes "1 / 2 ^ 100 \<le> mu0" and "mu0 \<le> 2 ^ 100"
    and "1 / 2 ^ 100 \<le> L" and "L \<le> 2 ^ 100"
  shows "\<bar>1 / 2 * mu0 * Ms mu0 ^ 2 - Km\<bar> \<le> Km / 2 ^ 50 \<and>
         \<bar>sqrt (A mu0 L / Km) - cubesize / L\<bar> \<le> cubesize / L / 2 ^ 50 \<and>
         \<bar>cubesize / sqrt (A mu0 L / Km) - L\<bar> \<le> L / 2 ^ 50 \<and>
         K = 0.1 * Km \<and>
         minimise_system_energy mu0 drive L m_init =
           Inr (drive
             \<lparr>system_name = ''stdprob3'',
              system_hamiltonian = [Exchange (A mu0 L), UniaxialAnisotropy K u, Demag],
              system_m =
                \<lparr>field_mesh = \<lparr>p1 = (0, 0, 0), p2 = (cubesize, cubesize, cubesize),
                               cell = (cellsize, cellsize, cellsize)\<rparr>,
                 field_value = m_init, field_norm = Ms mu0\<rparr>\<rparr>)"
proof -
  have small: "(0::real) < 1 / 2 ^ 100"
    by simp
  from small assms(1) have permeability: "0 < mu0"
    by (rule less_le_trans)
  from small assms(3) have edge: "0 < L"
    by (rule less_le_trans)
  have nonzero: "L \<noteq> 0"
    using edge by simp
  note half_mu0_Ms_squared [OF permeability]
  moreover note exchange_length_bound [OF permeability edge]
  moreover note edge_length_roundings [OF permeability edge]
  moreover note K_value
  moreover have "minimise_system_energy mu0 drive L m_init =
           Inr (drive
             \<lparr>system_name = ''stdprob3'',
              system_hamiltonian = [Exchange (A mu0 L), UniaxialAnisotropy K u, Demag],
              system_m =
                \<lparr>field_mesh = \<lparr>p1 = (0, 0, 0), p2 = (cubesize, cubesize, cubesize),
                               cell = (cellsize, cellsize, cellsize)\<rparr>,
                 field_value = m_init, field_norm = Ms mu0\<rparr>\<rparr>)"
    using nonzero by (simp add: minimise_system_energy_def)
  ultimately show ?thesis
    by (intro conjI)
qed

theorem material_constants_up_to_rounding_witness:
  "\<bar>1 / 2 * mu0_double * Ms mu0_double ^ 2 - Km\<bar> \<le> Km / 2 ^ 50 \<and>
   \<bar>sqrt (A mu0_double (17 / 2) / Km) - cubesize / (17 / 2)\<bar> \<le> cubesize / (17 / 2) / 2 ^ 50 \<and>
   \<bar>cubesize / sqrt (A mu0_double (17 / 2) / Km) - 17 / 2\<bar> \<le> 17 / 2 / 2 ^ 50 \<and>
   K = 0.1 * Km"
proof -
  have permeability: "1 / 2 ^ 100 \<le> mu0_double" "mu0_double \<le> 2 ^ 100"
    by (simp_all add: mu0_double_def)
  have edge: "1 / 2 ^ 100 \<le> (17 / 2 :: real)" "(17 / 2 :: real) \<le> 2 ^ 100"
    by simp_all
  from material_constants_up_to_rounding [OF permeability edge] show ?thesis
    by blast
qed

text \<open>
  C9 as stated fails. At the SI value of the vacuum permeability the product
  \<^verbatim>\<open>0.5 * oc.mu0 * Ms**2\<close> the code computes is \<open>10\<^sup>6 + 2 ^ -33\<close>
  (1000000.0000000001), and half of \<open>mu0 * Ms\<^sup>2\<close> is not \<open>Km\<close>; at \<open>L = 8.5\<close> the exchange
  length \<open>sqrt (A / Km)\<close> is not \<open>cubesize / L\<close>, and the edge is not \<open>L\<close> exchange lengths.
  Computed in double precision as well, the exchange length is 1.1764705882352942e-08
  where \<^verbatim>\<open>cubesize/L\<close> is 1.176470588235294e-08, and the edge is 8.499999999999998
  exchange lengths.
\<close>

theorem material_constants_not_exact:
  "fl (fl (0.5 * mu0_double) * fl (Ms mu0_double ^ 2)) = 10 ^ 6 + 1 / 2 ^ 33 \<and>
   1 / 2 * mu0_double * Ms mu0_double ^ 2 \<noteq> Km \<and>
   sqrt (A mu0_double (17 / 2) / Km) \<noteq> cubesize / (17 / 2) \<and>
   cubesize / sqrt (A mu0_double (17 / 2) / Km) \<noteq> 17 / 2 \<and>
   fl (sqrt (fl (A mu0_double (17 / 2) / Km))) = 7111328350674290 / 2 ^ 79 \<and>
   fl (cubesize / (17 / 2)) = 7111328350674289 / 2 ^ 79 \<and>
   fl (cubesize / fl (sqrt (fl (A mu0_double (17 / 2) / Km)))) = 4785074604081151 / 2 ^ 49"
proof -
  have "8589934592000001 / 2 ^ 33 = (10 ^ 6 + 1 / 2 ^ 33 :: real)"
    by simp
  then have first: "fl (fl (0.5 * mu0_double) * fl (Ms mu0_double ^ 2)) = 10 ^ 6 + 1 / 2 ^ 33"
    by (simp only: half_mu0_Ms_squared_value)
  have "1 / 2 * mu0_double * (5418385832775294 / 2 ^ 32) ^ 2 \<noteq> Km"
    by (simp add: mu0_double_def Km_def power2_eq_square)
  then have second: "1 / 2 * mu0_double * Ms mu0_double ^ 2 \<noteq> Km"
    unfolding Ms_value .
  have ratio: "A mu0_double (17 / 2) / Km \<noteq> (cubesize / (17 / 2))\<^sup>2"
    by (simp add: A_value cubesize_value Km_def power2_eq_square)
  have nonneg: "0 \<le> A mu0_double (17 / 2) / Km"
    by (simp add: A_value Km_def)
  have third: "sqrt (A mu0_double (17 / 2) / Km) \<noteq> cubesize / (17 / 2)"
  proof
    assume "sqrt (A mu0_double (17 / 2) / Km) = cubesize / (17 / 2)"
    then have "(sqrt (A mu0_double (17 / 2) / Km))\<^sup>2 = (cubesize / (17 / 2))\<^sup>2"
      by (simp only:)
    with nonneg have "A mu0_double (17 / 2) / Km = (cubesize / (17 / 2))\<^sup>2"
      by (simp only: real_sqrt_pow2)
    with ratio show False ..
  qed
  have fourth: "cubesize / sqrt (A mu0_double (17 / 2) / Km) \<noteq> 17 / 2"
  proof
    assume eq: "cubesize / sqrt (A mu0_double (17 / 2) / Km) = 17 / 2"
    have "sqrt (A mu0_double (17 / 2) / Km) \<noteq> 0"
      by (simp add: A_value Km_def)
    with eq have "sqrt (A mu0_double (17 / 2) / Km) = cubesize / (17 / 2)"
      by (simp add: field_simps)
    with third show False ..
  qed
  note first second third fourth exchange_length_value
  moreover note lex_value [unfolded lex_exchange_def]
  moreover note edge_value
  ultimately show ?thesis
    by (intro conjI)
qed

section \<open>The energy difference\<close>

text \<open>
  C1, as the code has it. For every edge length \<open>L\<close> other than zero (so for every \<open>L\<close> of
  the bracket \<open>[8, 9]\<close>) both relaxations return a system, and the energy difference is the
  total energy of the relaxed vortex-state system minus that of the relaxed flower-state
  system: the negative of the difference the specification writes.
\<close>

theorem energy_difference_vortex_minus_flower:
  assumes "L \<noteq> 0"
  shows "\<exists>vortex flower.
           minimise_system_energy mu0 drive L m_init_vortex = Inr vortex \<and>
           minimise_system_energy mu0 drive L m_init_flower = Inr flower \<and>
           energy_difference mu0 drive total_energy L =
             Inr (total_energy vortex - total_energy flower) \<and>
           energy_difference_flower_minus_vortex mu0 drive total_energy L =
             Inr (- (total_energy vortex - total_energy flower))"
  using assms
  by (simp add: energy_difference_def energy_difference_flower_minus_vortex_def
      minimise_system_energy_def Let_def)

theorem energy_difference_vortex_minus_flower_witness:
  "\<exists>vortex flower.
     minimise_system_energy (4 * pi / 10 ^ 7) (\<lambda>s. s) 8 m_init_vortex = Inr vortex \<and>
     minimise_system_energy (4 * pi / 10 ^ 7) (\<lambda>s. s) 8 m_init_flower = Inr flower \<and>
     energy_difference (4 * pi / 10 ^ 7) (\<lambda>s. s) probe_energy 8 =
       Inr (probe_energy vortex - probe_energy flower) \<and>
     energy_difference_flower_minus_vortex (4 * pi / 10 ^ 7) (\<lambda>s. s) probe_energy 8 =
       Inr (- (probe_energy vortex - probe_energy flower))"
proof -
  have "(8::real) \<noteq> 0"
    by simp
  then show ?thesis
    by (rule energy_difference_vortex_minus_flower)
qed

text \<open>
  C1 as stated fails. With a driver that leaves the system as it is and the z component
  of the field at \<open>(-0.5 nm, 0, 0)\<close> read as the energy, the vortex state has energy 1 and
  the flower state energy -1 at \<open>L = 8\<close>: the code's difference is 2, and flower minus
  vortex is -2.
\<close>

theorem energy_difference_not_flower_minus_vortex:
  "energy_difference (4 * pi / 10 ^ 7) (\<lambda>s. s) probe_energy 8 = Inr 2 \<and>
   energy_difference_flower_minus_vortex (4 * pi / 10 ^ 7) (\<lambda>s. s) probe_energy 8 = Inr (- 2) \<and>
   energy_difference (4 * pi / 10 ^ 7) (\<lambda>s. s) probe_energy 8 \<noteq>
     energy_difference_flower_minus_vortex (4 * pi / 10 ^ 7) (\<lambda>s. s) probe_energy 8"
  by (simp add: energy_difference_def energy_difference_flower_minus_vortex_def
      minimise_system_energy_def Let_def probe_energy_def m_init_vortex_def m_init_flower_def)

section \<open>The critical-length search\<close>

subsection \<open>One bisection step\<close>

lemma width_narrow: "width (narrow d b) = width b / 2"
  by (simp add: narrow_def width_def midpoint_def Let_def field_simps)

lemma narrow_sign_change: "sign_change d b \<Longrightarrow> sign_change d (narrow d b)"
  by (auto simp: narrow_def sign_change_def Let_def zero_less_mult_iff mult_le_0_iff not_le)

lemma narrow_halves:
  "narrow d b = (fst b, midpoint b) \<or> narrow d b = (midpoint b, snd b)"
  by (simp add: narrow_def Let_def)

lemma narrow_inside:
  "fst b < snd b \<Longrightarrow>
   fst b \<le> fst (narrow d b) \<and> snd (narrow d b) \<le> snd b \<and> fst (narrow d b) < snd (narrow d b)"
  by (simp add: narrow_def midpoint_def Let_def)

subsection \<open>The loop and the brackets it goes through\<close>

lemma bisect_loop_stop: "width b < tol \<Longrightarrow> bisect_loop d tol b = Some (midpoint b)"
  by (subst bisect_loop.simps) simp

lemma bisect_loop_step:
  "\<not> width b < tol \<Longrightarrow> bisect_loop d tol b = bisect_loop d tol (narrow d b)"
  by (subst bisect_loop.simps) simp

lemma brackets_same_loop:
  "bisect_brackets d tol b c \<Longrightarrow> bisect_loop d tol b = bisect_loop d tol c"
  by (induction rule: bisect_brackets.induct) (simp_all add: bisect_loop_step)

lemma brackets_sign_change:
  "bisect_brackets d tol b c \<Longrightarrow> sign_change d b \<Longrightarrow> sign_change d c"
  by (induction rule: bisect_brackets.induct) (simp_all add: narrow_sign_change)

lemma brackets_inside:
  "bisect_brackets d tol b c \<Longrightarrow> fst b < snd b \<Longrightarrow>
   fst b \<le> fst c \<and> snd c \<le> snd b \<and> fst c < snd c"
proof (induction rule: bisect_brackets.induct)
  case (start b)
  then show ?case by simp
next
  case (narrowed b c)
  from narrowed.prems have inner: "fst b \<le> fst (narrow d b) \<and> snd (narrow d b) \<le> snd b \<and>
      fst (narrow d b) < snd (narrow d b)"
    by (rule narrow_inside)
  with narrowed.IH show ?case by linarith
qed

lemma brackets_extend:
  "bisect_brackets d tol a b \<Longrightarrow> \<not> width b < tol \<Longrightarrow> bisect_brackets d tol a (narrow d b)"
proof (induction rule: bisect_brackets.induct)
  case (start b)
  then show ?case
    by (blast intro: bisect_brackets.intros)
next
  case (narrowed b c)
  then show ?case
    by (blast intro: bisect_brackets.intros)
qed

lemma brackets_final_unique:
  "bisect_brackets d tol b c \<Longrightarrow> width c < tol \<Longrightarrow>
   bisect_brackets d tol b c' \<Longrightarrow> width c' < tol \<Longrightarrow> c' = c"
proof (induction rule: bisect_brackets.induct)
  case (start b)
  from start.prems(2) start.prems(1,3) show ?case
    by (cases rule: bisect_brackets.cases) auto
next
  case (narrowed b c)
  from narrowed.prems(2) show ?case
  proof (cases rule: bisect_brackets.cases)
    case start
    with narrowed.hyps(1) narrowed.prems(3) show ?thesis by simp
  next
    case narrowed': narrowed
    from narrowed.IH [OF narrowed.prems(1) narrowed'(2) narrowed.prems(3)] show ?thesis .
  qed
qed

text \<open>
  The loop returns once the width, halved \<open>n\<close> times, is below the tolerance; for a
  positive tolerance some \<open>n\<close> is enough.
\<close>

lemma bisect_loop_halvings:
  "width b < tol * 2 ^ n \<Longrightarrow>
   \<exists>c. bisect_loop d tol b = Some (midpoint c) \<and> bisect_brackets d tol b c \<and> width c < tol"
proof (induction n arbitrary: b)
  case 0
  then have small: "width b < tol" by simp
  then have "bisect_loop d tol b = Some (midpoint b)"
    by (rule bisect_loop_stop)
  with small show ?case
    by (blast intro: bisect_brackets.start)
next
  case (Suc n)
  show ?case
  proof (cases "width b < tol")
    case True
    then have "bisect_loop d tol b = Some (midpoint b)"
      by (rule bisect_loop_stop)
    with True show ?thesis
      by (blast intro: bisect_brackets.start)
  next
    case False
    from Suc.prems have "width (narrow d b) < tol * 2 ^ n"
      by (simp add: width_narrow)
    from Suc.IH [OF this] obtain c where
      c: "bisect_loop d tol (narrow d b) = Some (midpoint c)"
         "bisect_brackets d tol (narrow d b) c" "width c < tol"
      by blast
    from False c(1) have "bisect_loop d tol b = Some (midpoint c)"
      by (simp add: bisect_loop_step)
    moreover from False c(2) have "bisect_brackets d tol b c"
      by (rule bisect_brackets.narrowed)
    ultimately show ?thesis
      using c(3) by blast
  qed
qed

lemma enough_halvings: "0 < tol \<Longrightarrow> \<exists>n. w < tol * 2 ^ n" for tol w :: real
proof -
  assume pos: "0 < tol"
  obtain n where "w / tol < 2 ^ n"
    using real_arch_pow [of 2 "w / tol"] by auto
  with pos have "w < tol * 2 ^ n"
    by (simp add: field_simps)
  then show ?thesis ..
qed

lemma bisect_loop_returns:
  assumes "0 < tol"
  shows "\<exists>c. bisect_loop d tol b = Some (midpoint c) \<and> bisect_brackets d tol b c \<and> width c < tol"
proof -
  from enough_halvings [OF assms] obtain n where "width b < tol * 2 ^ n" ..
  then show ?thesis by (rule bisect_loop_halvings)
qed

subsection \<open>The search\<close>

text \<open>
  C5. Given a bracket on which \<open>d\<close> changes sign and a positive tolerance, the search
  returns: its result is the midpoint of a bracket \<open>c\<close> that the loop reaches and whose
  width is below the tolerance, and \<open>c\<close> is the only such bracket, the loop stopping
  there. Every bracket \<open>b\<close> the loop goes through contains a sign change and is one the
  loop continues from; while the width of \<open>b\<close> is not below the tolerance the next
  bracket is the lower or the upper half of \<open>b\<close>, split at the midpoint, and contains a
  sign change.
\<close>

theorem bisect_narrows_bracket:
  assumes "sign_change d (lo, hi)" and "0 < tol"
  shows "(\<exists>c. bisect d lo hi tol = Some (Inr (midpoint c)) \<and>
              bisect_brackets d tol (lo, hi) c \<and> width c < tol \<and>
              (\<forall>b. bisect_brackets d tol (lo, hi) b \<and> width b < tol \<longrightarrow> b = c)) \<and>
         (\<forall>b. bisect_brackets d tol (lo, hi) b \<longrightarrow>
              sign_change d b \<and>
              bisect_loop d tol (lo, hi) = bisect_loop d tol b \<and>
              (\<not> width b < tol \<longrightarrow>
                 bisect_brackets d tol (lo, hi) (narrow d b) \<and>
                 (narrow d b = (fst b, midpoint b) \<or> narrow d b = (midpoint b, snd b)) \<and>
                 sign_change d (narrow d b)))"
proof (intro conjI allI impI)
  from bisect_loop_returns [OF assms(2), of d "(lo, hi)"] obtain c where
    c: "bisect_loop d tol (lo, hi) = Some (midpoint c)"
       "bisect_brackets d tol (lo, hi) c" "width c < tol"
    by blast
  from assms(1) c(1) have "bisect d lo hi tol = Some (Inr (midpoint c))"
    by (simp add: bisect_def)
  moreover have "\<forall>b. bisect_brackets d tol (lo, hi) b \<and> width b < tol \<longrightarrow> b = c"
    using brackets_final_unique [OF c(2,3)] by blast
  ultimately show "\<exists>c. bisect d lo hi tol = Some (Inr (midpoint c)) \<and>
      bisect_brackets d tol (lo, hi) c \<and> width c < tol \<and>
      (\<forall>b. bisect_brackets d tol (lo, hi) b \<and> width b < tol \<longrightarrow> b = c)"
    using c(2,3) by blast
next
  fix b
  assume reach: "bisect_brackets d tol (lo, hi) b"
  from reach assms(1) show change: "sign_change d b"
    by (rule brackets_sign_change)
  from reach show "bisect_loop d tol (lo, hi) = bisect_loop d tol b"
    by (rule brackets_same_loop)
  assume wide: "\<not> width b < tol"
  from reach wide show "bisect_brackets d tol (lo, hi) (narrow d b)"
    by (rule brackets_extend)
  show "narrow d b = (fst b, midpoint b) \<or> narrow d b = (midpoint b, snd b)"
    by (rule narrow_halves)
  from change show "sign_change d (narrow d b)"
    by (rule narrow_sign_change)
qed

text \<open>
  The search on \<open>d L = 5 L - 42\<close> (a zero at 8.4), the bracket \<open>[8, 9]\<close> and the tolerance
  0.1 goes through \<open>[8, 8.5]\<close>, \<open>[8.25, 8.5]\<close>, \<open>[8.375, 8.5]\<close> and \<open>[8.375, 8.4375]\<close>, and
  returns 8.40625.
\<close>

theorem bisect_narrows_bracket_witness:
  "(\<exists>c. bisect (\<lambda>L. 5 * L - 42) 8 9 (1 / 10) = Some (Inr (midpoint c)) \<and> width c < 1 / 10) \<and>
   bisect (\<lambda>L. 5 * L - 42) 8 9 (1 / 10) = Some (Inr (269 / 32)) \<and>
   sign_change (\<lambda>L. 5 * L - 42) (8, 17 / 2) \<and>
   narrow (\<lambda>L. 5 * L - 42) (8, 17 / 2) = (33 / 4, 17 / 2) \<and>
   sign_change (\<lambda>L. 5 * L - 42) (33 / 4, 17 / 2)"
proof -
  have change: "sign_change (\<lambda>L. 5 * L - 42) (8, 9)"
    by (simp add: sign_change_def)
  have pos: "(0::real) < 1 / 10"
    by simp
  have first: "narrow (\<lambda>L. 5 * L - 42) (8, 9) = (8, 17 / 2)"
    by (simp add: narrow_def midpoint_def sign_change_def)
  have "bisect_brackets (\<lambda>L. 5 * L - 42) (1 / 10) (8, 9) (narrow (\<lambda>L. 5 * L - 42) (8, 9))"
    by (rule bisect_brackets.narrowed) (simp_all add: width_def bisect_brackets.start)
  then have reach: "bisect_brackets (\<lambda>L. 5 * L - 42) (1 / 10) (8, 9) (8, 17 / 2)"
    by (simp only: first)
  have wide: "\<not> width (8, 17 / 2) < ((1 / 10)::real)"
    by (simp add: width_def)
  have second: "narrow (\<lambda>L. 5 * L - 42) (8, 17 / 2) = (33 / 4, 17 / 2)"
    by (simp add: narrow_def midpoint_def sign_change_def)
  have val: "bisect (\<lambda>L. 5 * L - 42) 8 9 (1 / 10) = Some (Inr (269 / 32))"
  proof -
    have third: "narrow (\<lambda>L. 5 * L - 42) (33 / 4, 17 / 2) = (67 / 8, 17 / 2)"
      by (simp add: narrow_def midpoint_def sign_change_def)
    have fourth: "narrow (\<lambda>L. 5 * L - 42) (67 / 8, 17 / 2) = (67 / 8, 135 / 16)"
      by (simp add: narrow_def midpoint_def sign_change_def)
    have "bisect_loop (\<lambda>L. 5 * L - 42) (1 / 10) (8, 9) =
        bisect_loop (\<lambda>L. 5 * L - 42) (1 / 10) (8, 17 / 2)"
      by (subst bisect_loop_step) (simp_all add: width_def first)
    also have "\<dots> = bisect_loop (\<lambda>L. 5 * L - 42) (1 / 10) (33 / 4, 17 / 2)"
      by (subst bisect_loop_step) (simp_all add: width_def second)
    also have "\<dots> = bisect_loop (\<lambda>L. 5 * L - 42) (1 / 10) (67 / 8, 17 / 2)"
      by (subst bisect_loop_step) (simp_all add: width_def third)
    also have "\<dots> = bisect_loop (\<lambda>L. 5 * L - 42) (1 / 10) (67 / 8, 135 / 16)"
      by (subst bisect_loop_step) (simp_all add: width_def fourth)
    also have "\<dots> = Some (269 / 32)"
      by (subst bisect_loop_stop) (simp_all add: width_def midpoint_def)
    finally show ?thesis
      using change by (simp add: bisect_def)
  qed
  note search = bisect_narrows_bracket [OF change pos]
  from search have "\<exists>c. bisect (\<lambda>L. 5 * L - 42) 8 9 (1 / 10) = Some (Inr (midpoint c)) \<and>
      bisect_brackets (\<lambda>L. 5 * L - 42) (1 / 10) (8, 9) c \<and> width c < 1 / 10 \<and>
      (\<forall>b. bisect_brackets (\<lambda>L. 5 * L - 42) (1 / 10) (8, 9) b \<and> width b < 1 / 10 \<longrightarrow> b = c)"
    by (rule conjunct1)
  then have returns: "\<exists>c. bisect (\<lambda>L. 5 * L - 42) 8 9 (1 / 10) = Some (Inr (midpoint c)) \<and>
      width c < 1 / 10"
    by (elim exE conjE) (intro exI conjI)
  from search have "\<forall>b. bisect_brackets (\<lambda>L. 5 * L - 42) (1 / 10) (8, 9) b \<longrightarrow>
      sign_change (\<lambda>L. 5 * L - 42) b \<and>
      bisect_loop (\<lambda>L. 5 * L - 42) (1 / 10) (8, 9) = bisect_loop (\<lambda>L. 5 * L - 42) (1 / 10) b \<and>
      (\<not> width b < 1 / 10 \<longrightarrow>
         bisect_brackets (\<lambda>L. 5 * L - 42) (1 / 10) (8, 9) (narrow (\<lambda>L. 5 * L - 42) b) \<and>
         (narrow (\<lambda>L. 5 * L - 42) b = (fst b, midpoint b) \<or>
          narrow (\<lambda>L. 5 * L - 42) b = (midpoint b, snd b)) \<and>
         sign_change (\<lambda>L. 5 * L - 42) (narrow (\<lambda>L. 5 * L - 42) b))"
    by (rule conjunct2)
  from this [rule_format, OF reach]
  have kept: "sign_change (\<lambda>L. 5 * L - 42) (8, 17 / 2)"
    and next_kept: "sign_change (\<lambda>L. 5 * L - 42) (narrow (\<lambda>L. 5 * L - 42) (8, 17 / 2))"
    using wide by simp_all
  from next_kept have "sign_change (\<lambda>L. 5 * L - 42) (33 / 4, 17 / 2)"
    by (simp only: second)
  with returns val kept second show ?thesis
    by (intro conjI)
qed

text \<open>
  C3. On the bracket \<open>[8, 9]\<close> with tolerance 0.05, and an energy difference that changes
  sign between 8 and 9 (the bracket the notebook's scan of \<open>L\<close> establishes), the search
  returns a crossing estimate strictly between 8 and 9.
\<close>

theorem bisect_8_9_strictly_inside:
  assumes "sign_change d (8, 9)"
  shows "\<exists>x. bisect d 8 9 0.05 = Some (Inr x) \<and> 8 < x \<and> x < 9"
proof -
  have "(0::real) < 0.05" by simp
  from bisect_loop_returns [OF this, of d "(8, 9)"] obtain c where
    c: "bisect_loop d 0.05 (8, 9) = Some (midpoint c)" "bisect_brackets d 0.05 (8, 9) c"
    by blast
  from brackets_inside [OF c(2)] have "8 \<le> fst c \<and> snd c \<le> 9 \<and> fst c < snd c"
    by simp
  then have "8 < midpoint c \<and> midpoint c < 9"
    by (simp add: midpoint_def)
  moreover from assms c(1) have "bisect d 8 9 0.05 = Some (Inr (midpoint c))"
    by (simp add: bisect_def)
  ultimately show ?thesis by blast
qed

theorem bisect_8_9_strictly_inside_witness:
  "\<exists>x. bisect (\<lambda>L. 5 * L - 42) 8 9 0.05 = Some (Inr x) \<and> 8 < x \<and> x < 9"
proof -
  have "sign_change (\<lambda>L. 5 * L - 42) (8, 9)"
    by (simp add: sign_change_def)
  then show ?thesis
    by (rule bisect_8_9_strictly_inside)
qed

text \<open>
  C4. When the energy difference has the same sign at both ends of the interval, both
  positive or both negative, the search fails with \<open>NoBracket\<close>, which carries the two
  endpoint energy differences, and so returns no crossing estimate.
\<close>

theorem bisect_no_bracket:
  assumes "(0 < d lo \<and> 0 < d hi) \<or> (d lo < 0 \<and> d hi < 0)"
  shows "bisect d lo hi tol = Some (Inl (NoBracket (d lo) (d hi))) \<and>
         (\<forall>x. bisect d lo hi tol \<noteq> Some (Inr x))"
proof -
  from assms have "0 < d lo * d hi"
    by (auto simp: zero_less_mult_iff)
  then show ?thesis
    by (simp add: bisect_def sign_change_def not_le)
qed

theorem bisect_no_bracket_witness:
  "bisect (\<lambda>L. L - 10) 8 9 0.05 = Some (Inl (NoBracket (- 2) (- 1)))"
  using bisect_no_bracket [of "\<lambda>L. L - 10" 8 9 "0.05"] by simp

end
